theory Spec2Isabelle
  imports Main "HOL-Library.Product_Lexorder" "HOL-Library.List_Lexorder" "HOL-Library.Char_ord"
    "HOL-Library.Sublist" "HOL-Library.Multiset"
begin

section \<open>Python values\<close>

text \<open>
  The cache holds what \<^verbatim>\<open>json.load\<close> and \<^verbatim>\<open>response.json()\<close> produce: \<^verbatim>\<open>None\<close>,
  booleans, integers, strings, lists and dictionaries with string keys. A dictionary keeps
  its insertion order (\<^verbatim>\<open>.values()\<close> iterates in that order), so it is an association
  list. Numbers are integers (JSON fractions are left out) and strings are ASCII.
\<close>

datatype json =
    JNull
  | JBool bool
  | JInt int
  | JStr string
  | JList "json list"
  | JObj "(string \<times> json) list"

type_synonym dict = "(string \<times> json) list"

datatype py_error =
    AttributeError
  | TypeError
  | KeyError
  | ValueError
  | IndexError
  | OverflowError

text \<open>\<^verbatim>\<open>d.get(k)\<close>: the value of the first (only) entry of key \<open>k\<close>.\<close>

fun dict_get :: "dict \<Rightarrow> string \<Rightarrow> json option" where
  "dict_get [] k = None"
| "dict_get ((k', v) # d) k = (if k' = k then Some v else dict_get d k)"

text \<open>\<^verbatim>\<open>d.get(k, default)\<close>.\<close>

definition dict_get_default :: "dict \<Rightarrow> string \<Rightarrow> json \<Rightarrow> json" where
  "dict_get_default d k dflt = (case dict_get d k of None \<Rightarrow> dflt | Some v \<Rightarrow> v)"

text \<open>\<^verbatim>\<open>d[k] = v\<close>: an existing key keeps its place, a new key goes last.\<close>

fun dict_set :: "string \<Rightarrow> json \<Rightarrow> dict \<Rightarrow> dict" where
  "dict_set k v [] = [(k, v)]"
| "dict_set k v ((k', v') # d) = (if k' = k then (k, v) # d else (k', v') # dict_set k v d)"

text \<open>\<^verbatim>\<open>d.update(other)\<close>: \<^verbatim>\<open>d[k] = v\<close> for every item of \<open>other\<close>, in its order.\<close>

fun dict_update :: "dict \<Rightarrow> dict \<Rightarrow> dict" where
  "dict_update d [] = d"
| "dict_update d ((k, v) # other) = dict_update (dict_set k v d) other"

definition dict_values :: "dict \<Rightarrow> json list" where
  "dict_values d = map snd d"

text \<open>\<^verbatim>\<open>isinstance(v, dict)\<close>.\<close>

fun is_dict :: "json \<Rightarrow> bool" where
  "is_dict (JObj d) = True"
| "is_dict v = False"

text \<open>
  \<^verbatim>\<open>a == b\<close> on these values: a boolean equals the integer 0 or 1, lists are equal
  elementwise, dictionaries when they have the same keys with equal values, whatever the
  order.
\<close>

fun py_eq :: "json \<Rightarrow> json \<Rightarrow> bool" where
  "py_eq JNull b = (b = JNull)"
| "py_eq (JBool x) b = (case b of JBool y \<Rightarrow> x = y | JInt n \<Rightarrow> n = (if x then 1 else 0) | _ \<Rightarrow> False)"
| "py_eq (JInt m) b = (case b of JBool y \<Rightarrow> m = (if y then 1 else 0) | JInt n \<Rightarrow> m = n | _ \<Rightarrow> False)"
| "py_eq (JStr s) b = (b = JStr s)"
| "py_eq (JList xs) b = (case b of JList ys \<Rightarrow> list_all2 py_eq xs ys | _ \<Rightarrow> False)"
| "py_eq (JObj d) b = (case b of
       JObj e \<Rightarrow> length d = length e \<and>
         list_all (\<lambda>kv. case dict_get e (fst kv) of None \<Rightarrow> False | Some w \<Rightarrow> py_eq (snd kv) w) d
     | _ \<Rightarrow> False)"

text \<open>\<^verbatim>\<open>x in xs\<close> for a list \<open>xs\<close>.\<close>

definition py_in :: "json \<Rightarrow> json list \<Rightarrow> bool" where
  "py_in x xs = list_ex (py_eq x) xs"

text \<open>\<^verbatim>\<open>v.get(k, default)\<close> on any value: only a dictionary has \<^verbatim>\<open>get\<close>.\<close>

fun py_get :: "json \<Rightarrow> string \<Rightarrow> json \<Rightarrow> py_error + json" where
  "py_get (JObj d) k dflt = Inr (dict_get_default d k dflt)"
| "py_get v k dflt = Inl AttributeError"

subsection \<open>Strings\<close>

definition lower_char :: "char \<Rightarrow> char" where
  "lower_char c =
     (let n = (of_char c :: nat) in if 65 \<le> n \<and> n \<le> 90 then char_of (n + 32) else c)"

definition lower :: "string \<Rightarrow> string" where
  "lower s = map lower_char s"

text \<open>\<^verbatim>\<open>v.lower()\<close> on any value: only a string has \<^verbatim>\<open>lower\<close>.\<close>

fun py_lower :: "json \<Rightarrow> py_error + string" where
  "py_lower (JStr s) = Inr (lower s)"
| "py_lower v = Inl AttributeError"

fun startswith :: "string \<Rightarrow> string \<Rightarrow> bool" where
  "startswith s [] = True"
| "startswith [] (p # ps) = False"
| "startswith (c # cs) (p # ps) = (c = p \<and> startswith cs ps)"

text \<open>\<^verbatim>\<open>a in b\<close> for strings: \<open>a\<close> occurs in \<open>b\<close> as a contiguous substring.\<close>

fun str_in :: "string \<Rightarrow> string \<Rightarrow> bool" where
  "str_in a [] = (a = [])"
| "str_in a (c # cs) = (startswith (c # cs) a \<or> str_in a cs)"

subsection \<open>The due-date pattern\<close>

text \<open>
  \<^verbatim>\<open>DATE_REGEX = r"\[\d{2}/\d{2}/\d{2}\]"\<close>: an opening bracket, two digits, a slash,
  two digits, a slash, two digits, a closing bracket.
\<close>

datatype atom = Lit char | Digit

definition DATE_REGEX :: "atom list" where
  "DATE_REGEX = [Lit (CHR ''[''), Digit, Digit, Lit (CHR ''/''), Digit, Digit,
                 Lit (CHR ''/''), Digit, Digit, Lit (CHR '']'')]"

definition is_digit :: "char \<Rightarrow> bool" where
  "is_digit c = (let n = (of_char c :: nat) in 48 \<le> n \<and> n \<le> 57)"

fun atom_matches :: "atom \<Rightarrow> char \<Rightarrow> bool" where
  "atom_matches (Lit l) c = (c = l)"
| "atom_matches Digit c = is_digit c"

text \<open>The pattern matches at the start of the string.\<close>

fun match_here :: "atom list \<Rightarrow> string \<Rightarrow> bool" where
  "match_here [] s = True"
| "match_here (a # as) [] = False"
| "match_here (a # as) (c # cs) = (atom_matches a c \<and> match_here as cs)"

text \<open>\<^verbatim>\<open>re.search(DATE_REGEX, s)\<close>, as a truth value.\<close>

fun re_search :: "string \<Rightarrow> bool" where
  "re_search [] = False"
| "re_search (c # cs) = (match_here DATE_REGEX (c # cs) \<or> re_search cs)"

text \<open>
  \<^verbatim>\<open>re.findall(DATE_REGEX, s)\<close>: the matches from left to right, the scan resuming
  after the end of each match.
\<close>

function re_findall :: "string \<Rightarrow> string list" where
  "re_findall s =
     (if s = [] then []
      else if match_here DATE_REGEX s then take 10 s # re_findall (drop 10 s)
      else re_findall (tl s))"
  by pat_completeness auto
termination
  by (relation "measure length") (auto simp: less_Suc_eq_le)

declare re_findall.simps [simp del]

subsection \<open>Dates\<close>

text \<open>
  A naive \<^verbatim>\<open>datetime\<close> is the pair of its day number (\<^verbatim>\<open>toordinal()\<close>: day 1 is
  1 January of year 1) and the microseconds since midnight (from 0 to 86399999999); the
  order of pairs is the order of \<^verbatim>\<open>datetime\<close> values.
\<close>

type_synonym datetime = "int \<times> int"

definition is_leap :: "int \<Rightarrow> bool" where
  "is_leap y = (y mod 4 = 0 \<and> (y mod 100 \<noteq> 0 \<or> y mod 400 = 0))"

definition days_in_month :: "int \<Rightarrow> nat \<Rightarrow> int" where
  "days_in_month y m =
     (if m = 2 \<and> is_leap y then 29
      else [31, 28, 31, 30, 31, 30, 31, 31, 30, 31, 30, 31] ! (m - 1))"

definition days_before_month :: "int \<Rightarrow> nat \<Rightarrow> int" where
  "days_before_month y m = sum_list (map (days_in_month y) [1..<m])"

definition days_before_year :: "int \<Rightarrow> int" where
  "days_before_year y =
     (let p = y - 1 in p * 365 + p div 4 - p div 100 + p div 400)"

definition ymd2ord :: "int \<Rightarrow> nat \<Rightarrow> nat \<Rightarrow> int" where
  "ymd2ord y m d = days_before_year y + days_before_month y m + int d"

definition digit_val :: "char \<Rightarrow> nat" where
  "digit_val c = of_char c - 48"

text \<open>
  \<^verbatim>\<open>datetime.datetime.strptime(tok, "[%d/%m/%y]")\<close> for a token of the shape of
  \<open>DATE_REGEX\<close> (two digits in each field), the only strings \<^verbatim>\<open>get_due_cards\<close>
  passes. Day 01 to 31 and month 01 to 12 or ValueError; years 00 to 68 are 2000 to
  2068 and 69 to 99 are 1969 to 1999; a day beyond the month's length is ValueError.
\<close>

definition strptime :: "string \<Rightarrow> py_error + datetime" where
  "strptime tok =
     (if length tok = 10 \<and> match_here DATE_REGEX tok then
        (let day = 10 * digit_val (tok ! 1) + digit_val (tok ! 2);
             month = 10 * digit_val (tok ! 4) + digit_val (tok ! 5);
             yy = 10 * digit_val (tok ! 7) + digit_val (tok ! 8);
             year = (if yy \<le> 68 then 2000 + int yy else 1900 + int yy)
         in if day < 1 \<or> 31 < day \<or> month < 1 \<or> 12 < month then Inl ValueError
            else if days_in_month year month < int day then Inl ValueError
            else Inr (ymd2ord year month day, 0))
      else Inl ValueError)"

text \<open>
  \<^verbatim>\<open>t + datetime.timedelta(days=n)\<close>: a \<^verbatim>\<open>timedelta\<close> holds at most 999999999 days
  and a date lies between year 1 and year 9999 (day 3652059), or OverflowError.
\<close>

definition add_days :: "datetime \<Rightarrow> int \<Rightarrow> py_error + datetime" where
  "add_days t n =
     (if n < - 999999999 \<or> 999999999 < n then Inl OverflowError
      else if fst t + n < 1 \<or> 3652059 < fst t + n then Inl OverflowError
      else Inr (fst t + n, snd t))"

section \<open>The remote client: \<^verbatim>\<open>CodecksAPI\<close>\<close>

text \<open>
  What \<^verbatim>\<open>requests.request(...)\<close> can do: raise, or hand back a response with a status
  code whose \<^verbatim>\<open>.json()\<close> either decodes the body or raises. The exceptions are named by
  the \<^verbatim>\<open>except\<close> clause that catches them: \<^verbatim>\<open>requests.exceptions.Timeout\<close>, any other
  \<^verbatim>\<open>requests.exceptions.RequestException\<close>, any other \<^verbatim>\<open>Exception\<close>. Python's \<^verbatim>\<open>None\<close>
  is \<open>JNull\<close>. Log lines are not modelled. The three fetches (\<^verbatim>\<open>fetch_project\<close>,
  \<^verbatim>\<open>fetch_history\<close>, \<^verbatim>\<open>fetch_cards\<close>) build a query and return what \<^verbatim>\<open>make_request\<close>
  returns for it.
\<close>

datatype raised = Timeout | RequestException | Exception

datatype response = Response (status_code: int) (json_body: "raised + json")

datatype transport = Raises raised | Responds response

text \<open>\<^verbatim>\<open>handle_response\<close>: every branch but status 200 only logs and falls to \<^verbatim>\<open>return None\<close>.\<close>

definition handle_response :: "response \<Rightarrow> raised + json" where
  "handle_response r =
     (if status_code r = 200 then json_body r
      else if status_code r = 400 then Inr JNull
      else if status_code r = 401 then Inr JNull
      else if status_code r = 404 then Inr JNull
      else if status_code r = 500 then Inr JNull
      else if status_code r = 408 then Inr JNull
      else Inr JNull)"

text \<open>
  \<^verbatim>\<open>make_request\<close>: the \<^verbatim>\<open>try\<close> block returns what \<^verbatim>\<open>handle_response\<close> returns; each of the
  three \<^verbatim>\<open>except\<close> clauses logs and falls to the final \<^verbatim>\<open>return None\<close>. \<open>Inl\<close> would be an
  exception leaving \<^verbatim>\<open>make_request\<close>.
\<close>

definition make_request :: "transport \<Rightarrow> raised + json" where
  "make_request t =
     (case (case t of Raises x \<Rightarrow> Inl x | Responds r \<Rightarrow> handle_response r) of
        Inr v \<Rightarrow> Inr v
      | Inl Timeout \<Rightarrow> Inr JNull
      | Inl RequestException \<Rightarrow> Inr JNull
      | Inl Exception \<Rightarrow> Inr JNull)"

section \<open>The cache: \<^verbatim>\<open>CodecksData\<close>\<close>

text \<open>
  A timestamp is the string \<^verbatim>\<open>strftime("%Y-%m-%dT%H:%M:%SZ")\<close> writes; such strings are
  ordered in time by the order of strings. The \<^verbatim>\<open>datetime\<close> objects the constructor and
  \<^verbatim>\<open>load_project\<close> store in \<^verbatim>\<open>last_update\<close> are held in the same rendering.

  The mirror file \<^verbatim>\<open>codecks.json\<close> is absent or holds a JSON document.
\<close>

type_synonym timestamp = string

datatype mirror_file = Absent | Document dict

record codecks_data =
  data :: dict
  last_update :: timestamp
  mirror :: mirror_file

text \<open>\<^verbatim>\<open>__init__\<close>; the mirror file is whatever is on disk.\<close>

definition init :: "mirror_file \<Rightarrow> codecks_data" where
  "init f = \<lparr>data = [], last_update = ''1970-01-01T00:00:00Z'', mirror = f\<rparr>"

text \<open>
  The surroundings of one call: the clock reading of \<^verbatim>\<open>datetime.now(timezone.utc)\<close>
  formatted, what the three fetches of the remote client return for their arguments
  (annotated \<^verbatim>\<open>dict\<close>: \<^verbatim>\<open>None\<close> or a dictionary), and whether the mirror file can be
  written.
\<close>

record env =
  now_utc :: timestamp
  fetch_project :: "dict option"
  fetch_history :: "timestamp \<Rightarrow> dict option"
  fetch_cards :: "json list \<Rightarrow> dict option"
  disk_ok :: bool

text \<open>\<^verbatim>\<open>if response:\<close> is false for \<^verbatim>\<open>None\<close> and for the empty dictionary.\<close>

fun truthy :: "dict option \<Rightarrow> bool" where
  "truthy None = False"
| "truthy (Some d) = (d \<noteq> [])"

text \<open>
  \<^verbatim>\<open>await f(...)\<close> runs the body of the coroutine function. A call without \<^verbatim>\<open>await\<close>
  only builds a coroutine object: when nothing awaits it, no statement of the body runs.
\<close>

definition awaited :: "('s \<Rightarrow> 's) \<Rightarrow> 's \<Rightarrow> 's" where
  "awaited coroutine s = coroutine s"

definition not_awaited :: "('s \<Rightarrow> 's) \<Rightarrow> 's \<Rightarrow> 's" where
  "not_awaited coroutine s = s"

text \<open>
  \<^verbatim>\<open>save_project\<close>: stores \<^verbatim>\<open>last_update\<close> under the key \<^verbatim>\<open>"last_update"\<close> of the data
  and dumps the data to the mirror file; when the file cannot be opened for writing, the
  failure is logged and the file stays as it was.
\<close>

definition save_project :: "bool \<Rightarrow> codecks_data \<Rightarrow> codecks_data" where
  "save_project ok s =
     (let last_updated = last_update s;
          d = dict_set ''last_update'' (JStr last_updated) (data s)
      in s\<lparr>data := d, mirror := (if ok then Document d else mirror s)\<rparr>)"

text \<open>\<^verbatim>\<open>get_project_data\<close>: the full fetch of the bootstrap.\<close>

definition get_project_data :: "env \<Rightarrow> codecks_data \<Rightarrow> codecks_data" where
  "get_project_data e s =
     (let s1 = s\<lparr>last_update := now_utc e\<rparr>;
          response = fetch_project e
      in case response of
           None \<Rightarrow> s1
         | Some r \<Rightarrow>
             if truthy response then awaited (save_project (disk_ok e)) (s1\<lparr>data := r\<rparr>)
             else s1)"

text \<open>
  \<^verbatim>\<open>get_card_data\<close>: \<^verbatim>\<open>self.data.update(response)\<close>, then \<^verbatim>\<open>self.save_project()\<close>, which
  line 103 calls without \<^verbatim>\<open>await\<close>.
\<close>

definition get_card_data :: "env \<Rightarrow> json list \<Rightarrow> codecks_data \<Rightarrow> codecks_data" where
  "get_card_data e card_ids s =
     (let response = fetch_cards e card_ids
      in case response of
           None \<Rightarrow> s
         | Some r \<Rightarrow>
             if truthy response
             then not_awaited (save_project (disk_ok e)) (s\<lparr>data := dict_update (data s) r\<rparr>)
             else s)"

text \<open>\<^verbatim>\<open>len(v)\<close>.\<close>

fun py_len :: "json \<Rightarrow> py_error + nat" where
  "py_len (JList xs) = Inr (length xs)"
| "py_len (JObj d) = Inr (length d)"
| "py_len (JStr s) = Inr (length s)"
| "py_len v = Inl TypeError"

text \<open>
  \<^verbatim>\<open>for activity in v\<close>: the elements of a list, the keys of a dictionary, the characters
  of a string.
\<close>

fun py_iter :: "json \<Rightarrow> json list" where
  "py_iter (JList xs) = xs"
| "py_iter (JObj d) = map (\<lambda>kv. JStr (fst kv)) d"
| "py_iter (JStr s) = map (\<lambda>c. JStr [c]) s"
| "py_iter v = []"

text \<open>\<^verbatim>\<open>activity["card"]\<close>: KeyError on a dictionary without the key, TypeError elsewhere.\<close>

fun subscript_card :: "json \<Rightarrow> py_error + json" where
  "subscript_card (JObj d) = (case dict_get d ''card'' of None \<Rightarrow> Inl KeyError | Some v \<Rightarrow> Inr v)"
| "subscript_card v = Inl TypeError"

text \<open>\<^verbatim>\<open>[activity["card"] for activity in activity_data]\<close>: the first failure raises.\<close>

fun activity_cards :: "json list \<Rightarrow> py_error + json list" where
  "activity_cards [] = Inr []"
| "activity_cards (activity # rest) =
     (case subscript_card activity of
        Inl err \<Rightarrow> Inl err
      | Inr c \<Rightarrow> (case activity_cards rest of Inl err \<Rightarrow> Inl err | Inr cs \<Rightarrow> Inr (c # cs)))"

datatype outcome = Returned | Raised py_error

text \<open>
  \<^verbatim>\<open>get_history_data\<close>, one refresh cycle: the state it leaves and whether it returned or
  raised.
\<close>

definition get_history_data :: "env \<Rightarrow> codecks_data \<Rightarrow> codecks_data \<times> outcome" where
  "get_history_data e s =
     (let last_update_time = last_update s;
          response = fetch_history e last_update_time
      in case response of
           None \<Rightarrow> (s, Returned)
         | Some r \<Rightarrow>
             if truthy response then
               (let s1 = s\<lparr>last_update := now_utc e\<rparr>;
                    activity_data = dict_get_default r ''activity'' (JList [])
                in case py_len activity_data of
                     Inl err \<Rightarrow> (s1, Raised err)
                   | Inr n \<Rightarrow>
                       if n > 0 then
                         (case activity_cards (py_iter activity_data) of
                            Inl err \<Rightarrow> (s1, Raised err)
                          | Inr card_ids \<Rightarrow> (awaited (get_card_data e card_ids) s1, Returned))
                       else (s1, Returned))
             else (s, Returned))"

text \<open>
  \<^verbatim>\<open>check_for_activity_process\<close> in \<^verbatim>\<open>codecks.py\<close>: one \<^verbatim>\<open>get_history_data\<close> per turn of
  the loop, each in the surroundings of its time. The list holds the states the turns
  leave; an exception ends the task.
\<close>

fun check_for_activity_process :: "env list \<Rightarrow> codecks_data \<Rightarrow> codecks_data list" where
  "check_for_activity_process [] s = []"
| "check_for_activity_process (e # es) s =
     (case get_history_data e s of
        (s', Returned) \<Rightarrow> s' # check_for_activity_process es s'
      | (s', Raised err) \<Rightarrow> [s'])"

subsection \<open>The read accessors\<close>

text \<open>\<^verbatim>\<open>get_decks\<close>: \<^verbatim>\<open>self.data.get("deck", [])\<close>.\<close>

definition get_decks :: "codecks_data \<Rightarrow> json" where
  "get_decks s = dict_get_default (data s) ''deck'' (JList [])"

text \<open>\<^verbatim>\<open>get_card_info\<close>: \<^verbatim>\<open>self.data.get("card", {}).get(card_id, {})\<close>.\<close>

definition get_card_info :: "codecks_data \<Rightarrow> string \<Rightarrow> py_error + json" where
  "get_card_info s card_id =
     py_get (dict_get_default (data s) ''card'' (JObj [])) card_id (JObj [])"

text \<open>
  The condition of the first comprehension of \<^verbatim>\<open>get_cards\<close>:
  \<^verbatim>\<open>deck_id.lower() in deck_info.get("title", "").lower()\<close>.
\<close>

definition title_matches :: "string \<Rightarrow> json \<Rightarrow> py_error + bool" where
  "title_matches deck_id deck_info =
     (case py_get deck_info ''title'' (JStr []) of
        Inl err \<Rightarrow> Inl err
      | Inr title \<Rightarrow>
          (case py_lower title of
             Inl err \<Rightarrow> Inl err
           | Inr t \<Rightarrow> Inr (str_in (lower deck_id) t)))"

text \<open>\<^verbatim>\<open>[deck_info.get("id") for deck_info in decks.values() if ...]\<close>.\<close>

fun matching_decks :: "string \<Rightarrow> json list \<Rightarrow> py_error + json list" where
  "matching_decks deck_id [] = Inr []"
| "matching_decks deck_id (deck_info # rest) =
     (case title_matches deck_id deck_info of
        Inl err \<Rightarrow> Inl err
      | Inr b \<Rightarrow>
          (case (if b then py_get deck_info ''id'' JNull else Inr JNull) of
             Inl err \<Rightarrow> Inl err
           | Inr i \<Rightarrow>
               (case matching_decks deck_id rest of
                  Inl err \<Rightarrow> Inl err
                | Inr ids \<Rightarrow> Inr (if b then i # ids else ids))))"

text \<open>\<^verbatim>\<open>[card_info for card_info in cards.values() if card_info.get("deckId") in matching_decks]\<close>.\<close>

fun matching_cards :: "json list \<Rightarrow> json list \<Rightarrow> py_error + json list" where
  "matching_cards decks [] = Inr []"
| "matching_cards decks (card_info # rest) =
     (case py_get card_info ''deckId'' JNull of
        Inl err \<Rightarrow> Inl err
      | Inr i \<Rightarrow>
          (case matching_cards decks rest of
             Inl err \<Rightarrow> Inl err
           | Inr cs \<Rightarrow> Inr (if py_in i decks then card_info # cs else cs)))"

definition get_cards :: "codecks_data \<Rightarrow> string \<Rightarrow> py_error + json list" where
  "get_cards s deck_id =
     (let cards = dict_get_default (data s) ''card'' (JObj []);
          decks = dict_get_default (data s) ''deck'' (JObj [])
      in if \<not> is_dict cards \<or> \<not> is_dict decks then Inr []
         else (case (cards, decks) of
                 (JObj cs, JObj ds) \<Rightarrow>
                   (case matching_decks deck_id (dict_values ds) of
                      Inl err \<Rightarrow> Inl err
                    | Inr ids \<Rightarrow> matching_cards ids (dict_values cs))
               | _ \<Rightarrow> Inr []))"

text \<open>
  An element of the list \<^verbatim>\<open>get_due_cards\<close> builds: the dictionary
  \<^verbatim>\<open>{"card": card, "matches": re.findall(...)}\<close>.
\<close>

datatype due = Due (due_card: json) (due_matches: "string list")

text \<open>\<^verbatim>\<open>card.get("content", "")\<close> as the string \<^verbatim>\<open>re.search\<close> scans: TypeError if it is none.\<close>

definition card_content :: "json \<Rightarrow> py_error + string" where
  "card_content c =
     (case py_get c ''content'' (JStr []) of
        Inl err \<Rightarrow> Inl err
      | Inr (JStr txt) \<Rightarrow> Inr txt
      | Inr v \<Rightarrow> Inl TypeError)"

fun cards_with_due_dates :: "json list \<Rightarrow> py_error + due list" where
  "cards_with_due_dates [] = Inr []"
| "cards_with_due_dates (c # rest) =
     (case card_content c of
        Inl err \<Rightarrow> Inl err
      | Inr txt \<Rightarrow>
          (case cards_with_due_dates rest of
             Inl err \<Rightarrow> Inl err
           | Inr found \<Rightarrow> Inr (if re_search txt then Due c (re_findall txt) # found else found)))"

text \<open>The sort key: \<^verbatim>\<open>datetime.datetime.strptime(x["matches"][0], "[%d/%m/%y]")\<close>.\<close>

definition sort_key_of :: "due \<Rightarrow> py_error + datetime" where
  "sort_key_of x = (case due_matches x of [] \<Rightarrow> Inl IndexError | m # ms \<Rightarrow> strptime m)"

text \<open>\<^verbatim>\<open>list.sort(key=...)\<close> computes the key of every element first; the first failure raises.\<close>

fun sort_keys :: "due list \<Rightarrow> py_error + (datetime \<times> due) list" where
  "sort_keys [] = Inr []"
| "sort_keys (x # xs) =
     (case sort_key_of x of
        Inl err \<Rightarrow> Inl err
      | Inr k \<Rightarrow> (case sort_keys xs of Inl err \<Rightarrow> Inl err | Inr ks \<Rightarrow> Inr ((k, x) # ks)))"

text \<open>
  The filter of \<^verbatim>\<open>get_due_cards\<close>: for each element, its key
  \<^verbatim>\<open><= datetime.datetime.now() + datetime.timedelta(days=days_ahead)\<close>, with one clock
  reading \<open>now\<close> for the whole call.
\<close>

fun within_horizon :: "datetime \<Rightarrow> int \<Rightarrow> (datetime \<times> due) list \<Rightarrow> py_error + (datetime \<times> due) list" where
  "within_horizon now days_ahead [] = Inr []"
| "within_horizon now days_ahead (kx # rest) =
     (case add_days now days_ahead of
        Inl err \<Rightarrow> Inl err
      | Inr limit \<Rightarrow>
          (case within_horizon now days_ahead rest of
             Inl err \<Rightarrow> Inl err
           | Inr kept \<Rightarrow> Inr (if fst kx \<le> limit then kx # kept else kept)))"

text \<open>
  \<^verbatim>\<open>get_due_cards\<close>; the stable \<^verbatim>\<open>list.sort\<close> is the stable \<open>sort_key\<close>. The decks it
  also reads are not used.
\<close>

definition get_due_cards :: "datetime \<Rightarrow> codecks_data \<Rightarrow> int \<Rightarrow> py_error + due list" where
  "get_due_cards now s days_ahead =
     (case dict_get_default (data s) ''card'' (JObj []) of
        JObj cards \<Rightarrow>
          (case cards_with_due_dates (dict_values cards) of
             Inl err \<Rightarrow> Inl err
           | Inr found \<Rightarrow>
               (case sort_keys found of
                  Inl err \<Rightarrow> Inl err
                | Inr keyed \<Rightarrow>
                    (let ordered = sort_key fst keyed
                     in if days_ahead > 0 then
                          (case within_horizon now days_ahead ordered of
                             Inl err \<Rightarrow> Inl err
                           | Inr kept \<Rightarrow> Inr (map snd kept))
                        else Inr (map snd ordered))))
      | v \<Rightarrow> Inl AttributeError)"

section \<open>The words of the specification\<close>

text \<open>The cards and the decks of a snapshot: the values of its two mappings.\<close>

definition snapshot_cards :: "codecks_data \<Rightarrow> json list" where
  "snapshot_cards s =
     (case dict_get (data s) ''card'' of Some (JObj cs) \<Rightarrow> dict_values cs | _ \<Rightarrow> [])"

definition snapshot_decks :: "codecks_data \<Rightarrow> json list" where
  "snapshot_decks s =
     (case dict_get (data s) ''deck'' of Some (JObj ds) \<Rightarrow> dict_values ds | _ \<Rightarrow> [])"

text \<open>A field of a card or deck (\<^verbatim>\<open>None\<close> when it has none), and the title of a deck.\<close>

definition field_of :: "json \<Rightarrow> string \<Rightarrow> json" where
  "field_of v k = (case v of JObj fs \<Rightarrow> dict_get_default fs k JNull | _ \<Rightarrow> JNull)"

definition deck_title :: "json \<Rightarrow> string" where
  "deck_title d =
     (case d of
        JObj fs \<Rightarrow> (case dict_get fs ''title'' of Some (JStr t) \<Rightarrow> t | _ \<Rightarrow> [])
      | _ \<Rightarrow> [])"

text \<open>A deck as the data model has it: a record whose title, when present, is a string.\<close>

definition deck_ok :: "json \<Rightarrow> bool" where
  "deck_ok d =
     (case d of
        JObj fs \<Rightarrow> (case dict_get fs ''title'' of None \<Rightarrow> True | Some (JStr t) \<Rightarrow> True | Some v \<Rightarrow> False)
      | _ \<Rightarrow> False)"

text \<open>
  \<open>get_cards\<close> in the words of the specification: the decks whose title contains the
  filter as a case-insensitive substring, then the cards whose deck id is the id of one
  of them.
\<close>

definition spec_get_cards :: "codecks_data \<Rightarrow> string \<Rightarrow> json list" where
  "spec_get_cards s deck_filter =
     filter (\<lambda>c. \<exists>d \<in> set (snapshot_decks s).
                sublist (lower deck_filter) (lower (deck_title d)) \<and>
                py_eq (field_of c ''deckId'') (field_of d ''id''))
       (snapshot_cards s)"

text \<open>The cards of all decks: the cards whose deck id is the id of some deck.\<close>

definition all_decks_cards :: "codecks_data \<Rightarrow> json list" where
  "all_decks_cards s =
     filter (\<lambda>c. \<exists>d \<in> set (snapshot_decks s). py_eq (field_of c ''deckId'') (field_of d ''id''))
       (snapshot_cards s)"

text \<open>
  A due-date token is a string of the shape of the pattern; a text has one when a token
  is a contiguous part of it.
\<close>

definition is_due_token :: "string \<Rightarrow> bool" where
  "is_due_token tok = (length tok = 10 \<and> match_here DATE_REGEX tok)"

definition has_due_token :: "string \<Rightarrow> bool" where
  "has_due_token txt = (\<exists>tok. is_due_token tok \<and> sublist tok txt)"

text \<open>A due-dated card: a card whose content has a due-date token.\<close>

definition due_dated :: "json \<Rightarrow> bool" where
  "due_dated c = (\<exists>txt. card_content c = Inr txt \<and> has_due_token txt)"

text \<open>The content of a card, and the date of the first (leftmost) token of a text.\<close>

definition content_of :: "json \<Rightarrow> string" where
  "content_of c = (case card_content c of Inr txt \<Rightarrow> txt | Inl err \<Rightarrow> [])"

definition first_due_date :: "string \<Rightarrow> datetime option" where
  "first_due_date txt =
     (case re_findall txt of
        [] \<Rightarrow> None
      | tok # toks \<Rightarrow> (case strptime tok of Inr k \<Rightarrow> Some k | Inl err \<Rightarrow> None))"

text \<open>The first due date of a card is not after a limit.\<close>

definition due_by :: "datetime \<Rightarrow> json \<Rightarrow> bool" where
  "due_by limit c =
     (case first_due_date (content_of c) of Some k \<Rightarrow> k \<le> limit | None \<Rightarrow> False)"

text \<open>
  The earliest date among all the tokens of a text that are dates, as the specification
  words the sort key.
\<close>

definition token_dates :: "string \<Rightarrow> datetime list" where
  "token_dates txt =
     concat (map (\<lambda>tok. case strptime tok of Inr k \<Rightarrow> [k] | Inl err \<Rightarrow> []) (re_findall txt))"

definition earliest_due_date :: "string \<Rightarrow> datetime option" where
  "earliest_due_date txt =
     (case token_dates txt of [] \<Rightarrow> None | k # ks \<Rightarrow> Some (fold min ks k))"

text \<open>
  A card as the data model has it: a record whose content, when present, is a string,
  and whose first due-date token, when the content has one, is a calendar date.
\<close>

definition card_ok :: "json \<Rightarrow> bool" where
  "card_ok c =
     (case card_content c of
        Inr str \<Rightarrow> (if re_search str then first_due_date str \<noteq> None else True)
      | Inl err \<Rightarrow> False)"

text \<open>
  The mirror reflects the snapshot: the file holds the data with the current
  \<^verbatim>\<open>last_update\<close>, as \<^verbatim>\<open>save_project\<close> writes it.
\<close>

definition mirror_current :: "codecks_data \<Rightarrow> bool" where
  "mirror_current s =
     (mirror s = Document (dict_set ''last_update'' (JStr (last_update s)) (data s)))"

section \<open>A project to run the code on\<close>

definition fix_bug :: json where
  "fix_bug = JObj [(''title'', JStr ''Fix bug''), (''content'', JStr ''due [01/02/24]''),
                   (''deckId'', JStr ''D1'')]"

definition plan :: json where
  "plan = JObj [(''title'', JStr ''Plan''), (''content'', JStr ''[10/01/25] or [01/01/25]''),
                (''deckId'', JStr ''D2'')]"

definition licence :: json where
  "licence = JObj [(''title'', JStr ''Licence''), (''content'', JStr ''[05/01/25] renew''),
                   (''deckId'', JStr ''D1'')]"

definition idea :: json where
  "idea = JObj [(''title'', JStr ''Idea''), (''content'', JStr ''no date''),
                (''deckId'', JStr ''D9'')]"

definition demo_project :: dict where
  "demo_project =
     [(''deck'', JObj
        [(''D1'', JObj [(''id'', JStr ''D1''), (''title'', JStr ''Sprint'')]),
         (''D2'', JObj [(''id'', JStr ''D2''), (''title'', JStr ''Backlog'')])]),
      (''card'', JObj [(''C1'', fix_bug), (''C2'', plan), (''C3'', licence), (''C4'', idea)])]"

text \<open>The bootstrap: no mirror file, a full fetch that returns the project.\<close>

definition boot_env :: env where
  "boot_env =
     \<lparr>now_utc = ''2025-01-01T00:00:00Z'', fetch_project = Some demo_project,
      fetch_history = (\<lambda>since. None), fetch_cards = (\<lambda>ids. None), disk_ok = True\<rparr>"

definition booted :: codecks_data where
  "booted = get_project_data boot_env (init Absent)"

text \<open>Four refresh cycles: a failed history fetch, no activity, a change of card C3 whose
  card fetch succeeds, and the same change with a failed card fetch.\<close>

definition history_fails :: env where
  "history_fails =
     \<lparr>now_utc = ''2025-01-01T00:01:00Z'', fetch_project = None,
      fetch_history = (\<lambda>since. None), fetch_cards = (\<lambda>ids. None), disk_ok = True\<rparr>"

definition no_activity :: env where
  "no_activity =
     \<lparr>now_utc = ''2025-01-01T00:02:00Z'', fetch_project = None,
      fetch_history = (\<lambda>since. Some [(''activity'', JList [])]),
      fetch_cards = (\<lambda>ids. None), disk_ok = True\<rparr>"

definition licence_moved :: json where
  "licence_moved = JObj [(''title'', JStr ''Licence''), (''content'', JStr ''[20/01/25] renew''),
                         (''deckId'', JStr ''D1'')]"

definition c3_changed :: dict where
  "c3_changed = [(''card'', JObj [(''C3'', licence_moved)])]"

definition card_changes :: env where
  "card_changes =
     \<lparr>now_utc = ''2025-01-01T00:03:00Z'', fetch_project = None,
      fetch_history = (\<lambda>since. Some [(''activity'', JList [JObj [(''card'', JStr ''C3'')]])]),
      fetch_cards = (\<lambda>ids. Some c3_changed), disk_ok = True\<rparr>"

definition cards_fail :: env where
  "cards_fail =
     \<lparr>now_utc = ''2025-01-01T00:04:00Z'', fetch_project = None,
      fetch_history = (\<lambda>since. Some [(''activity'', JList [JObj [(''card'', JStr ''C3'')]])]),
      fetch_cards = (\<lambda>ids. None), disk_ok = True\<rparr>"

text \<open>Noon of 1 January 2025, day 739252, as the local clock reading.\<close>

definition new_year :: datetime where
  "new_year = (739252, 43200000000)"

text \<open>A snapshot read from a mirror whose \<^verbatim>\<open>"card"\<close> entry is a list.\<close>

definition odd_mirror :: codecks_data where
  "odd_mirror =
     \<lparr>data = [(''deck'', JObj [(''D1'', JObj [(''id'', JStr ''D1''), (''title'', JStr ''Sprint'')])]),
              (''card'', JList [JStr ''C1'']),
              (''last_update'', JStr ''2025-01-01T00:00:00Z'')],
      last_update = ''2025-01-01T00:00:00Z'',
      mirror = Document [(''deck'', JObj [(''D1'', JObj [(''id'', JStr ''D1''), (''title'', JStr ''Sprint'')])]),
                         (''card'', JList [JStr ''C1'']),
                         (''last_update'', JStr ''2025-01-01T00:00:00Z'')]\<rparr>"

text \<open>The due-dated cards of the project in the order \<open>get_due_cards\<close> gives them.\<close>

definition demo_due :: "due list" where
  "demo_due =
     [Due fix_bug [''[01/02/24]''], Due licence [''[05/01/25]''],
      Due plan [''[10/01/25]'', ''[01/01/25]'']]"

section \<open>Dictionaries\<close>

lemma dict_get_set: "dict_get (dict_set k v d) k' = (if k' = k then Some v else dict_get d k')"
  by (induction d) auto

lemma dict_set_same: "dict_set k v (dict_set k v' d) = dict_set k v d"
  by (induction d) auto

text \<open>Two assignments commute when the key of one is already there: it keeps its place.\<close>

lemma dict_set_swap:
  "k \<noteq> k' \<Longrightarrow> dict_get d k \<noteq> None \<Longrightarrow>
     dict_set k v (dict_set k' v' d) = dict_set k' v' (dict_set k v d)"
  by (induction d) auto

lemma dict_get_update_keeps:
  "dict_get d k \<noteq> None \<Longrightarrow> dict_get (dict_update d r) k \<noteq> None"
  by (induction d r rule: dict_update.induct) (auto simp: dict_get_set)

text \<open>An assignment to a key that the update assigns again is lost.\<close>

lemma dict_update_overrides:
  "dict_get q k \<noteq> None \<Longrightarrow> dict_get E k \<noteq> None \<Longrightarrow>
     dict_update (dict_set k v E) q = dict_update E q"
proof (induction q arbitrary: E)
  case Nil
  then show ?case by simp
next
  case (Cons a q)
  obtain k2 v2 where a: "a = (k2, v2)" by (cases a)
  show ?case
  proof (cases "k2 = k")
    case True
    then show ?thesis by (simp add: a dict_set_same)
  next
    case False
    with Cons.prems a have kq: "dict_get q k \<noteq> None" by auto
    have kE: "dict_get (dict_set k2 v2 E) k \<noteq> None"
      using Cons.prems(2) by (simp add: dict_get_set)
    have "dict_set k2 v2 (dict_set k v E) = dict_set k v (dict_set k2 v2 E)"
      using False Cons.prems(2) dict_set_swap[of k k2 E v v2] by simp
    then show ?thesis using Cons.IH[OF kq kE] by (simp add: a)
  qed
qed

text \<open>An assignment to a key that the update leaves alone can be done first.\<close>

lemma dict_set_past_update:
  "dict_get q k = None \<Longrightarrow> dict_get E k \<noteq> None \<Longrightarrow>
     dict_set k v (dict_update E q) = dict_update (dict_set k v E) q"
proof (induction q arbitrary: E)
  case Nil
  then show ?case by simp
next
  case (Cons a q)
  obtain k2 v2 where a: "a = (k2, v2)" by (cases a)
  from Cons.prems a have ne: "k \<noteq> k2" and kq: "dict_get q k = None"
    by (auto split: if_splits)
  have kE: "dict_get (dict_set k2 v2 E) k \<noteq> None"
    using Cons.prems(2) by (simp add: dict_get_set)
  have "dict_set k v (dict_set k2 v2 E) = dict_set k2 v2 (dict_set k v E)"
    using ne Cons.prems(2) dict_set_swap[of k k2 E v v2] by simp
  then show ?case using Cons.IH[OF kq kE] by (simp add: a)
qed

lemma dict_update_idem: "dict_update (dict_update d p) p = dict_update d p"
proof (induction p arbitrary: d)
  case Nil
  then show ?case by simp
next
  case (Cons a q)
  obtain k v where a: "a = (k, v)" by (cases a)
  define d1 where "d1 = dict_set k v d"
  define D where "D = dict_update d1 q"
  have k1: "dict_get d1 k \<noteq> None" by (simp add: d1_def dict_get_set)
  have kD: "dict_get D k \<noteq> None" using k1 by (simp add: D_def dict_get_update_keeps)
  have "dict_update (dict_set k v D) q = D"
  proof (cases "dict_get q k = None")
    case False
    then have "dict_update (dict_set k v D) q = dict_update D q"
      using kD by (rule dict_update_overrides)
    then show ?thesis by (simp add: D_def Cons.IH)
  next
    case True
    then have "dict_set k v D = dict_update (dict_set k v d1) q"
      unfolding D_def using k1 by (rule dict_set_past_update)
    then have "dict_set k v D = D" by (simp add: d1_def D_def dict_set_same)
    then show ?thesis by (simp add: D_def Cons.IH)
  qed
  then show ?case by (simp add: a d1_def D_def)
qed

text \<open>An update, key by key: the last value the update gives a key, or else the old one.\<close>

lemma dict_get_update:
  "dict_get (dict_update d r) k = (case dict_get (rev r) k of Some v \<Rightarrow> Some v | None \<Rightarrow> dict_get d k)"
proof (induction d r rule: dict_update.induct)
  case (1 d)
  then show ?case by simp
next
  case (2 d k' v other)
  have app: "\<And>xs ys. dict_get (xs @ ys) k = (case dict_get xs k of Some w \<Rightarrow> Some w | None \<Rightarrow> dict_get ys k)"
  proof -
    fix xs ys show "dict_get (xs @ ys) k = (case dict_get xs k of Some w \<Rightarrow> Some w | None \<Rightarrow> dict_get ys k)"
      by (induction xs) auto
  qed
  show ?case
    using 2 by (auto simp: app dict_get_set split: option.splits)
qed

section \<open>The remote client\<close>

text \<open>
  C8. Whatever the request does, \<open>make_request\<close> returns: the decoded body when the
  status is 200, and \<^verbatim>\<open>None\<close> for every other status, for a body that does not decode,
  and for every exception the request raises (a timeout, another request exception, any
  other exception). No exception leaves it.
\<close>

theorem make_request_outcomes:
  "make_request (Responds (Response 200 (Inr j))) = Inr j
   \<and> make_request (Responds (Response 200 (Inl x))) = Inr JNull
   \<and> (c \<noteq> 200 \<longrightarrow> make_request (Responds (Response c b)) = Inr JNull)
   \<and> make_request (Raises x) = Inr JNull
   \<and> (\<exists>v. make_request t = Inr v)"
proof -
  have total: "\<exists>v. make_request t = Inr v"
    by (cases t) (auto simp: make_request_def handle_response_def split: sum.splits raised.splits)
  show ?thesis
    using total
    by (auto simp: make_request_def handle_response_def split: sum.splits raised.splits)
qed

theorem make_request_outcomes_witness:
  "make_request (Responds (Response 200 (Inr (JObj demo_project)))) = Inr (JObj demo_project)
   \<and> make_request (Responds (Response 404 (Inr (JStr ''not found'')))) = Inr JNull
   \<and> make_request (Raises Timeout) = Inr JNull"
proof -
  have ne: "(404::int) \<noteq> 200" by simp
  show ?thesis
    using ne make_request_outcomes[of "JObj demo_project" Timeout 404 "Inr (JStr ''not found'')"
        "Raises Timeout"]
    by blast
qed

section \<open>The merge of fetched cards\<close>

lemma get_card_data_fails:
  "\<not> truthy (fetch_cards e ids) \<Longrightarrow> get_card_data e ids s = s"
  by (auto simp: get_card_data_def Let_def split: option.splits)

text \<open>
  What \<open>get_card_data\<close> does to the data: the entries of the payload replace the
  entries of the same top-level key, and every other top-level entry stays.
\<close>

lemma get_card_data_top_level:
  "fetch_cards e ids = Some r \<Longrightarrow> r \<noteq> [] \<Longrightarrow>
     get_card_data e ids s = s\<lparr>data := dict_update (data s) r\<rparr>"
  by (simp add: get_card_data_def not_awaited_def)

text \<open>
  C6. Merging the same payload twice leaves the snapshot that merging it once leaves:
  a second \<open>get_card_data\<close> whose fetch returns what the first one's returned changes
  nothing.
\<close>

theorem get_card_data_twice:
  "fetch_cards e' ids' = fetch_cards e ids \<Longrightarrow>
   get_card_data e' ids' (get_card_data e ids s) = get_card_data e ids s"
  by (auto simp: get_card_data_def not_awaited_def dict_update_idem Let_def split: option.splits)

theorem get_card_data_twice_witness:
  "fetch_cards card_changes [JStr ''C3''] = fetch_cards card_changes [JStr ''C3'']
   \<and> get_card_data card_changes [JStr ''C3''] (get_card_data card_changes [JStr ''C3''] booted)
       = get_card_data card_changes [JStr ''C3''] booted
   \<and> get_card_data card_changes [JStr ''C3''] booted \<noteq> booted"
proof -
  have same: "fetch_cards card_changes [JStr ''C3''] = fetch_cards card_changes [JStr ''C3'']"
    by simp
  have changed: "get_card_data card_changes [JStr ''C3''] booted \<noteq> booted"
    by code_simp
  show ?thesis
    using same changed get_card_data_twice[OF same, of booted] by simp
qed

text \<open>
  C2, on the code: the payload of a card fetch has the shape of the snapshot, with the
  fetched cards under its key \<^verbatim>\<open>"card"\<close>. Merged by \<open>get_card_data\<close>, it replaces the
  whole card mapping: card C1, which the payload does not name, is gone afterwards.
\<close>

theorem get_card_data_replaces_card_mapping:
  "snapshot_cards booted = [fix_bug, plan, licence, idea]
   \<and> get_card_info booted ''C1'' = Inr fix_bug
   \<and> fetch_cards card_changes [JStr ''C3''] = Some [(''card'', JObj [(''C3'', licence_moved)])]
   \<and> snapshot_cards (get_card_data card_changes [JStr ''C3''] booted) = [licence_moved]
   \<and> get_card_info (get_card_data card_changes [JStr ''C3''] booted) ''C1'' = Inr (JObj [])"
  by code_simp

section \<open>The refresh cycle\<close>

lemma history_fails_keeps:
  "\<not> truthy (fetch_history e (last_update s)) \<Longrightarrow> get_history_data e s = (s, Returned)"
  by (auto simp: get_history_data_def Let_def split: option.splits)

lemma history_ok_advances:
  "truthy (fetch_history e (last_update s)) \<Longrightarrow>
     last_update (fst (get_history_data e s)) = now_utc e"
  by (auto simp: get_history_data_def get_card_data_def awaited_def not_awaited_def Let_def
      split: option.splits sum.splits)

lemma cards_fail_keeps_data:
  "truthy (fetch_history e (last_update s)) \<Longrightarrow> (\<forall>ids. \<not> truthy (fetch_cards e ids)) \<Longrightarrow>
     fst (get_history_data e s) = s\<lparr>last_update := now_utc e\<rparr>"
  by (auto simp: get_history_data_def get_card_data_fails awaited_def Let_def
      split: option.splits sum.splits)

lemma cycle_stamp:
  "last_update (fst (get_history_data e s)) = last_update s \<or>
   last_update (fst (get_history_data e s)) = now_utc e"
  using history_fails_keeps[of e s] history_ok_advances[of e s]
  by (cases "truthy (fetch_history e (last_update s))") auto

lemma cycles_monotone:
  "sorted (last_update s # map now_utc es) \<Longrightarrow>
     sorted (last_update s # map last_update (check_for_activity_process es s))"
proof (induction es arbitrary: s)
  case Nil
  then show ?case by simp
next
  case (Cons e es)
  obtain s' r where step: "get_history_data e s = (s', r)" by (cases "get_history_data e s")
  have stamp: "last_update s' = last_update s \<or> last_update s' = now_utc e"
    using cycle_stamp[of e s] step by simp
  have le: "last_update s \<le> last_update s'"
    using stamp Cons.prems by auto
  have tail: "sorted (last_update s' # map now_utc es)"
    using stamp Cons.prems by auto
  show ?case
  proof (cases r)
    case Returned
    then show ?thesis using step le Cons.IH[OF tail] by auto
  next
    case (Raised err)
    then show ?thesis using step le by simp
  qed
qed

text \<open>
  C1, as the code has it. Over every sequence of refresh cycles whose clock readings do
  not go back, \<^verbatim>\<open>last_update\<close> is non-decreasing. A cycle whose history fetch fails
  leaves the whole state as it was, so the next cycle asks for the same window. A cycle
  whose history fetch returns a non-empty payload sets \<^verbatim>\<open>last_update\<close> to the call time
  before it fetches any card: when the card fetch fails, the data is unchanged and
  \<^verbatim>\<open>last_update\<close> is advanced all the same.
\<close>

theorem refresh_last_update:
  "(\<not> truthy (fetch_history e (last_update s)) \<longrightarrow> get_history_data e s = (s, Returned))
   \<and> (truthy (fetch_history e (last_update s)) \<longrightarrow>
        last_update (fst (get_history_data e s)) = now_utc e)
   \<and> (truthy (fetch_history e (last_update s)) \<longrightarrow> (\<forall>ids. \<not> truthy (fetch_cards e ids)) \<longrightarrow>
        fst (get_history_data e s) = s\<lparr>last_update := now_utc e\<rparr>)
   \<and> (sorted (last_update s # map now_utc es) \<longrightarrow>
        sorted (last_update s # map last_update (check_for_activity_process es s)))"
  using history_fails_keeps[of e s] history_ok_advances[of e s] cards_fail_keeps_data[of e s]
    cycles_monotone[of s es]
  by blast

theorem refresh_last_update_witness:
  "get_history_data history_fails booted = (booted, Returned)
   \<and> last_update (fst (get_history_data card_changes booted)) = now_utc card_changes
   \<and> fst (get_history_data cards_fail booted) = booted\<lparr>last_update := now_utc cards_fail\<rparr>
   \<and> sorted (last_update booted #
        map last_update
          (check_for_activity_process [history_fails, no_activity, card_changes, cards_fail] booted))"
proof -
  have h1: "\<not> truthy (fetch_history history_fails (last_update booted))"
    by (simp add: history_fails_def)
  have h2: "truthy (fetch_history card_changes (last_update booted))"
    by (simp add: card_changes_def)
  have h3: "truthy (fetch_history cards_fail (last_update booted))"
    by (simp add: cards_fail_def)
  have h4: "\<forall>ids. \<not> truthy (fetch_cards cards_fail ids)"
    by (simp add: cards_fail_def)
  have h5: "sorted (last_update booted #
      map now_utc [history_fails, no_activity, card_changes, cards_fail])"
    by code_simp
  show ?thesis
    using h1 h2 h3 h4 h5
      refresh_last_update[of history_fails booted "[]"]
      refresh_last_update[of card_changes booted "[]"]
      refresh_last_update[of cards_fail booted
        "[history_fails, no_activity, card_changes, cards_fail]"]
    by blast
qed

text \<open>
  C1 as it is stated fails: the history fetch succeeds, the card fetch fails, and the
  cycle has moved \<^verbatim>\<open>last_update\<close> from midnight to its own call time.
\<close>

theorem failed_card_fetch_advances_last_update:
  "truthy (fetch_history cards_fail (last_update booted))
   \<and> fetch_cards cards_fail [JStr ''C3''] = None
   \<and> last_update booted = ''2025-01-01T00:00:00Z''
   \<and> last_update (fst (get_history_data cards_fail booted)) = ''2025-01-01T00:04:00Z''
   \<and> last_update (fst (get_history_data cards_fail booted)) \<noteq> last_update booted"
  by code_simp

section \<open>The mirror file\<close>

lemma zero_activity:
  "fetch_history e (last_update s) = Some r \<Longrightarrow> r \<noteq> [] \<Longrightarrow>
   py_len (dict_get_default r ''activity'' (JList [])) = Inr 0 \<Longrightarrow>
   get_history_data e s = (s\<lparr>last_update := now_utc e\<rparr>, Returned)"
  by (auto simp: get_history_data_def Let_def split: option.splits)

lemma full_fetch_persists:
  "truthy (fetch_project e) \<Longrightarrow> disk_ok e \<Longrightarrow> mirror_current (get_project_data e s)"
  by (auto simp: get_project_data_def save_project_def awaited_def mirror_current_def Let_def
      dict_set_same split: option.splits)

text \<open>No refresh cycle writes the mirror file.\<close>

lemma refresh_never_writes_mirror: "mirror (fst (get_history_data e s)) = mirror s"
  by (auto simp: get_history_data_def get_card_data_def awaited_def not_awaited_def Let_def
      split: option.splits sum.splits)

text \<open>
  C3, as the code has it. The full fetch of the bootstrap rewrites the mirror, which
  then reflects the snapshot. A refresh cycle whose history fetch returns a payload with
  zero activity records sets \<^verbatim>\<open>last_update\<close> to the call time and changes nothing else:
  not the data, and not the mirror file, for which this path has no write.
\<close>

theorem quiet_cycle_writes_nothing:
  "(truthy (fetch_project e) \<longrightarrow> disk_ok e \<longrightarrow> mirror_current (get_project_data e s))
   \<and> (fetch_history e (last_update s) = Some r \<longrightarrow> r \<noteq> [] \<longrightarrow>
        py_len (dict_get_default r ''activity'' (JList [])) = Inr 0 \<longrightarrow>
        get_history_data e s = (s\<lparr>last_update := now_utc e\<rparr>, Returned))"
  using zero_activity[of e s r] full_fetch_persists[of e s] by blast

theorem quiet_cycle_writes_nothing_witness:
  "mirror_current (get_project_data boot_env (init Absent))
   \<and> get_history_data no_activity booted = (booted\<lparr>last_update := now_utc no_activity\<rparr>, Returned)"
proof -
  have h1: "truthy (fetch_project boot_env)"
    by (simp add: boot_env_def demo_project_def)
  have h2: "disk_ok boot_env"
    by (simp add: boot_env_def)
  have h3: "fetch_history no_activity (last_update booted) = Some [(''activity'', JList [])]"
    by (simp add: no_activity_def)
  have h4: "[(''activity'', JList [])] \<noteq> ([] :: dict)"
    by simp
  have h5: "py_len (dict_get_default [(''activity'', JList [])] ''activity'' (JList [])) = Inr 0"
    by (simp add: dict_get_default_def)
  show ?thesis
    using h1 h2 h3 h4 h5
      quiet_cycle_writes_nothing[of boot_env "init Absent"]
      quiet_cycle_writes_nothing[of no_activity booted "[(''activity'', JList [])]"]
    by blast
qed

text \<open>
  C3 as it is stated fails: after the bootstrap the mirror reflects the snapshot; a
  cycle with zero activity records advances \<^verbatim>\<open>last_update\<close>, and the mirror, not
  rewritten, no longer does.
\<close>

theorem quiet_cycle_leaves_mirror_stale:
  "mirror_current booted
   \<and> last_update (fst (get_history_data no_activity booted)) = ''2025-01-01T00:02:00Z''
   \<and> mirror (fst (get_history_data no_activity booted)) = mirror booted
   \<and> \<not> mirror_current (fst (get_history_data no_activity booted))"
  by code_simp

section \<open>The cards of the decks that match a filter\<close>

lemma startswith_prefix: "startswith s p = prefix p s"
  by (induction s p rule: startswith.induct) auto

lemma str_in_sublist: "str_in a b = sublist a b"
  by (induction b) (auto simp: startswith_prefix sublist_Cons_right)

lemma title_matches_ok:
  "deck_ok d \<Longrightarrow> title_matches f d = Inr (sublist (lower f) (lower (deck_title d)))"
  by (auto simp: deck_ok_def title_matches_def deck_title_def dict_get_default_def
      str_in_sublist lower_def split: json.splits option.splits)

lemma py_get_deck: "deck_ok d \<Longrightarrow> py_get d k JNull = Inr (field_of d k)"
  by (auto simp: deck_ok_def field_of_def split: json.splits)

lemma matching_decks_ok:
  "list_all deck_ok ds \<Longrightarrow>
     matching_decks f ds =
       Inr (map (\<lambda>d. field_of d ''id'')
              (filter (\<lambda>d. sublist (lower f) (lower (deck_title d))) ds))"
  by (induction ds) (auto simp: title_matches_ok py_get_deck)

lemma py_get_dict: "is_dict c \<Longrightarrow> py_get c k JNull = Inr (field_of c k)"
  by (cases c) (auto simp: field_of_def)

lemma matching_cards_ok:
  "list_all is_dict cs \<Longrightarrow>
     matching_cards ids cs = Inr (filter (\<lambda>c. py_in (field_of c ''deckId'') ids) cs)"
  by (induction cs) (auto simp: py_get_dict)

lemma py_in_ids:
  "py_in x (map g (filter P ds)) = (\<exists>d \<in> set ds. P d \<and> py_eq x (g d))"
  by (auto simp: py_in_def list_ex_iff)

lemma cards_of_matching_decks:
  assumes "list_all deck_ok (snapshot_decks s)" and "list_all is_dict (snapshot_cards s)"
  shows "get_cards s f = Inr (spec_get_cards s f)"
proof (cases "dict_get (data s) ''card''")
  case None
  then show ?thesis
    using assms
    by (auto simp: get_cards_def spec_get_cards_def snapshot_cards_def snapshot_decks_def
        dict_get_default_def dict_values_def matching_decks_ok Let_def
        split: option.splits json.splits)
next
  case card: (Some cv)
  show ?thesis
  proof (cases "dict_get (data s) ''deck''")
    case None
    then show ?thesis
      using assms card
      by (auto simp: get_cards_def spec_get_cards_def snapshot_cards_def snapshot_decks_def
          dict_get_default_def dict_values_def matching_cards_ok py_in_def Let_def
          split: option.splits json.splits)
  next
    case (Some dv)
    then show ?thesis
      using assms card
      by (cases cv; cases dv)
        (auto simp: get_cards_def spec_get_cards_def snapshot_cards_def snapshot_decks_def
          dict_get_default_def matching_decks_ok matching_cards_ok py_in_ids Let_def)
  qed
qed

lemma spec_get_cards_empty: "spec_get_cards s [] = all_decks_cards s"
  by (simp add: spec_get_cards_def all_decks_cards_def lower_def)

lemma title_matches_deck_ok: "title_matches f d = Inr b \<Longrightarrow> deck_ok d"
  by (cases d)
    (auto simp: title_matches_def deck_ok_def dict_get_default_def
      split: sum.splits option.splits json.splits)

lemma matching_decks_returns: "matching_decks f ds = Inr ids \<Longrightarrow> list_all deck_ok ds"
proof (induction ds arbitrary: ids)
  case Nil
  then show ?case by simp
next
  case (Cons d ds)
  from Cons.prems obtain b rest where "title_matches f d = Inr b" "matching_decks f ds = Inr rest"
    by (auto split: sum.splits)
  then show ?case using Cons.IH[of rest] title_matches_deck_ok[of f d b] by simp
qed

lemma matching_cards_returns: "matching_cards ids cs = Inr out \<Longrightarrow> list_all is_dict cs"
proof (induction cs arbitrary: out)
  case Nil
  then show ?case by simp
next
  case (Cons c cs)
  from Cons.prems obtain i rest where "py_get c ''deckId'' JNull = Inr i" "matching_cards ids cs = Inr rest"
    by (auto split: sum.splits)
  then show ?case using Cons.IH[of rest] by (cases c) auto
qed

lemma get_cards_returned:
  assumes "get_cards s f = Inr out"
  shows "out = spec_get_cards s f"
proof -
  define cards where "cards = dict_get_default (data s) ''card'' (JObj [])"
  define decks where "decks = dict_get_default (data s) ''deck'' (JObj [])"
  show ?thesis
  proof (cases "is_dict cards \<and> is_dict decks")
    case False
    then have "out = []"
      using assms by (auto simp: get_cards_def cards_def decks_def Let_def)
    moreover have "snapshot_cards s = [] \<or> snapshot_decks s = []"
      using False
      by (auto simp: cards_def decks_def snapshot_cards_def snapshot_decks_def
          dict_get_default_def split: option.splits json.splits)
    ultimately show ?thesis
      by (auto simp: spec_get_cards_def)
  next
    case True
    then obtain cs ds where c: "cards = JObj cs" and d: "decks = JObj ds"
      by (cases cards; cases decks) auto
    have sc: "snapshot_cards s = dict_values cs"
      using c by (auto simp: cards_def snapshot_cards_def dict_get_default_def dict_values_def
          split: option.splits)
    have sd: "snapshot_decks s = dict_values ds"
      using d by (auto simp: decks_def snapshot_decks_def dict_get_default_def dict_values_def
          split: option.splits)
    have run: "get_cards s f =
        (case matching_decks f (dict_values ds) of
           Inl err \<Rightarrow> Inl err
         | Inr ids \<Rightarrow> matching_cards ids (dict_values cs))"
      using c d by (simp add: get_cards_def cards_def decks_def)
    with assms obtain ids where ids: "matching_decks f (dict_values ds) = Inr ids"
      and mc: "matching_cards ids (dict_values cs) = Inr out"
      by (auto split: sum.splits)
    have "list_all deck_ok (snapshot_decks s)" "list_all is_dict (snapshot_cards s)"
      using matching_decks_returns[OF ids] matching_cards_returns[OF mc] sc sd by simp_all
    then show ?thesis
      using cards_of_matching_decks[of s f] assms by simp
  qed
qed

text \<open>
  C7. Whenever \<open>get_cards\<close> returns, it returns exactly the cards whose deck id is
  the id of a deck whose title contains the filter as a case-insensitive substring, in
  the order of the card mapping. It returns on every snapshot whose decks are records
  with a string for a title and whose cards are records; there, with the empty filter,
  it returns the cards of all the decks.
\<close>

theorem get_cards_as_specified:
  "(get_cards s deck_filter = Inr out \<longrightarrow> out = spec_get_cards s deck_filter)
   \<and> (list_all deck_ok (snapshot_decks s) \<longrightarrow> list_all is_dict (snapshot_cards s) \<longrightarrow>
        get_cards s deck_filter = Inr (spec_get_cards s deck_filter)
        \<and> get_cards s [] = Inr (all_decks_cards s))"
proof -
  have full: "list_all deck_ok (snapshot_decks s) \<Longrightarrow> list_all is_dict (snapshot_cards s) \<Longrightarrow>
      get_cards s [] = Inr (all_decks_cards s)"
    using cards_of_matching_decks[of s "[]"] by (simp add: spec_get_cards_empty)
  show ?thesis
    using get_cards_returned[of s deck_filter out] cards_of_matching_decks[of s deck_filter] full
    by blast
qed

theorem get_cards_as_specified_witness:
  "list_all deck_ok (snapshot_decks booted) \<and> list_all is_dict (snapshot_cards booted)
   \<and> get_cards booted ''SPR'' = Inr [fix_bug, licence]
   \<and> get_cards booted [] = Inr [fix_bug, plan, licence]"
proof -
  have decks: "list_all deck_ok (snapshot_decks booted)"
    by code_simp
  have cards: "list_all is_dict (snapshot_cards booted)"
    by code_simp
  have sprint: "spec_get_cards booted ''SPR'' = [fix_bug, licence]"
    by code_simp
  have every: "all_decks_cards booted = [fix_bug, plan, licence]"
    by code_simp
  have "get_cards booted ''SPR'' = Inr (spec_get_cards booted ''SPR'')
      \<and> get_cards booted [] = Inr (all_decks_cards booted)"
    using decks cards get_cards_as_specified[of booted "''SPR''"] by blast
  then show ?thesis
    using decks cards sprint every by simp
qed

text \<open>
  C10. When the value stored under the key \<^verbatim>\<open>"card"\<close> or under the key \<^verbatim>\<open>"deck"\<close> is
  not a mapping, \<open>get_cards\<close> returns the empty list for every filter and raises nothing.
\<close>

theorem get_cards_not_mapping:
  "(\<exists>v. dict_get (data s) ''card'' = Some v \<and> \<not> is_dict v) \<or>
   (\<exists>v. dict_get (data s) ''deck'' = Some v \<and> \<not> is_dict v) \<Longrightarrow>
   get_cards s deck_id = Inr []"
  by (auto simp: get_cards_def dict_get_default_def Let_def)

theorem get_cards_not_mapping_witness:
  "dict_get (data odd_mirror) ''card'' = Some (JList [JStr ''C1''])
   \<and> \<not> is_dict (JList [JStr ''C1''])
   \<and> get_cards odd_mirror ''sprint'' = Inr []"
proof -
  have stored: "dict_get (data odd_mirror) ''card'' = Some (JList [JStr ''C1''])"
    by (simp add: odd_mirror_def)
  have no_dict: "\<not> is_dict (JList [JStr ''C1''])"
    by simp
  have "(\<exists>v. dict_get (data odd_mirror) ''card'' = Some v \<and> \<not> is_dict v) \<or>
        (\<exists>v. dict_get (data odd_mirror) ''deck'' = Some v \<and> \<not> is_dict v)"
    using stored no_dict by blast
  then show ?thesis
    using stored get_cards_not_mapping[of odd_mirror "''sprint''"] by simp
qed

section \<open>The due cards\<close>

lemma match_here_prefix:
  "match_here p s \<longleftrightarrow> (\<exists>tok. length tok = length p \<and> match_here p tok \<and> prefix tok s)"
proof (induction p s rule: match_here.induct)
  case (1 s)
  then show ?case by simp
next
  case (2 a as)
  then show ?case by auto
next
  case (3 a as c cs)
  show ?case
  proof
    assume "match_here (a # as) (c # cs)"
    then have "atom_matches a c" and "match_here as cs" by simp_all
    then obtain tok where "length tok = length as" "match_here as tok" "prefix tok cs"
      using 3 by auto
    then have "length (c # tok) = length (a # as) \<and> match_here (a # as) (c # tok) \<and> prefix (c # tok) (c # cs)"
      using \<open>atom_matches a c\<close> by simp
    then show "\<exists>tok. length tok = length (a # as) \<and> match_here (a # as) tok \<and> prefix tok (c # cs)"
      by blast
  next
    assume "\<exists>tok. length tok = length (a # as) \<and> match_here (a # as) tok \<and> prefix tok (c # cs)"
    then obtain tok where t: "length tok = length (a # as)" "match_here (a # as) tok" "prefix tok (c # cs)"
      by blast
    then obtain t ts where tok: "tok = t # ts" by (cases tok) auto
    with t have "t = c" "prefix ts cs" "atom_matches a t" "match_here as ts" "length ts = length as"
      by auto
    then show "match_here (a # as) (c # cs)" using 3 by auto
  qed
qed

lemma token_at_start:
  "match_here DATE_REGEX s \<longleftrightarrow> (\<exists>tok. is_due_token tok \<and> prefix tok s)"
proof -
  have "length DATE_REGEX = 10" by (simp add: DATE_REGEX_def)
  then show ?thesis
    using match_here_prefix[of DATE_REGEX s] by (auto simp: is_due_token_def)
qed

lemma re_search_has_token: "re_search str = has_due_token str"
proof (induction str)
  case Nil
  then show ?case by (auto simp: has_due_token_def is_due_token_def)
next
  case (Cons c cs)
  have "has_due_token (c # cs) \<longleftrightarrow>
          (\<exists>tok. is_due_token tok \<and> prefix tok (c # cs)) \<or> has_due_token cs"
    by (auto simp: has_due_token_def sublist_Cons_right)
  then show ?case using Cons token_at_start[of "c # cs"] by simp
qed

lemma due_dated_iff:
  "card_content c = Inr txt \<Longrightarrow> due_dated c = re_search txt"
  by (simp add: due_dated_def re_search_has_token)

lemma cards_with_due_dates_found:
  "cards_with_due_dates cs = Inr found \<Longrightarrow>
     map due_card found = filter due_dated cs \<and>
     (\<forall>x \<in> set found. due_matches x = re_findall (content_of (due_card x)))"
proof (induction cs arbitrary: found)
  case Nil
  then show ?case by simp
next
  case (Cons c cs)
  from Cons.prems obtain str rest where c: "card_content c = Inr str"
    and r: "cards_with_due_dates cs = Inr rest"
    and f: "found = (if re_search str then Due c (re_findall str) # rest else rest)"
    by (auto split: sum.splits)
  have ih: "map due_card rest = filter due_dated cs \<and>
     (\<forall>x \<in> set rest. due_matches x = re_findall (content_of (due_card x)))"
    using Cons.IH[OF r] .
  show ?case
    using c f ih due_dated_iff[OF c] by (auto simp: content_of_def)
qed

lemma sort_keys_keyed:
  "sort_keys xs = Inr ks \<Longrightarrow>
     map snd ks = xs \<and> (\<forall>kx \<in> set ks. sort_key_of (snd kx) = Inr (fst kx))"
proof (induction xs arbitrary: ks)
  case Nil
  then show ?case by simp
next
  case (Cons x xs)
  from Cons.prems obtain k rest
    where "sort_key_of x = Inr k" "sort_keys xs = Inr rest" "ks = (k, x) # rest"
    by (auto split: sum.splits)
  then show ?case using Cons.IH[of rest] by simp
qed

lemma first_token_key:
  "due_matches x = re_findall (content_of (due_card x)) \<Longrightarrow> sort_key_of x = Inr k \<Longrightarrow>
     first_due_date (content_of (due_card x)) = Some k"
  by (auto simp: sort_key_of_def first_due_date_def split: list.splits)

lemma within_horizon_limit:
  "add_days now n = Inr limit \<Longrightarrow>
     within_horizon now n xs = Inr (filter (\<lambda>kx. fst kx \<le> limit) xs)"
  by (induction xs) auto

lemma within_horizon_part:
  assumes "within_horizon now n xs = Inr kept"
  shows "\<exists>P. kept = filter P xs"
proof (cases xs)
  case Nil
  then show ?thesis using assms by auto
next
  case (Cons a list)
  with assms obtain limit where "add_days now n = Inr limit" by (auto split: sum.splits)
  then show ?thesis using within_horizon_limit[of now n limit xs] assms by auto
qed

lemma due_cards_stages:
  assumes "get_due_cards now s n = Inr out"
  obtains cards found keyed where
    "dict_get_default (data s) ''card'' (JObj []) = JObj cards"
    "cards_with_due_dates (dict_values cards) = Inr found"
    "sort_keys found = Inr keyed"
    "snapshot_cards s = dict_values cards"
proof -
  from assms obtain cards where cards: "dict_get_default (data s) ''card'' (JObj []) = JObj cards"
    by (auto simp: get_due_cards_def split: json.splits)
  have sc: "snapshot_cards s = dict_values cards"
    using cards
    by (auto simp: snapshot_cards_def dict_get_default_def dict_values_def split: option.splits)
  from assms cards obtain found where found: "cards_with_due_dates (dict_values cards) = Inr found"
    by (auto simp: get_due_cards_def split: sum.splits)
  from assms cards found obtain keyed where keyed: "sort_keys found = Inr keyed"
    by (auto simp: get_due_cards_def split: sum.splits)
  show thesis
    using that[OF cards found keyed sc] .
qed

lemma due_cards_from_stages:
  assumes "dict_get_default (data s) ''card'' (JObj []) = JObj cards"
    and "cards_with_due_dates (dict_values cards) = Inr found"
    and "sort_keys found = Inr keyed"
  shows "get_due_cards now s m =
     (if m > 0 then
        (case within_horizon now m (sort_key fst keyed) of
           Inl err \<Rightarrow> Inl err
         | Inr kept \<Rightarrow> Inr (map snd kept))
      else Inr (map snd (sort_key fst keyed)))"
  using assms by (simp add: get_due_cards_def)

text \<open>What every element of the sorted list of keyed entries is.\<close>

lemma keyed_entries:
  assumes "cards_with_due_dates cs = Inr found" and "sort_keys found = Inr keyed"
    and "kx \<in> set keyed"
  shows "first_due_date (content_of (due_card (snd kx))) = Some (fst kx)
         \<and> due_card (snd kx) \<in> set cs \<and> due_dated (due_card (snd kx))"
proof -
  have f: "map due_card found = filter due_dated cs"
    and m: "\<forall>x \<in> set found. due_matches x = re_findall (content_of (due_card x))"
    using cards_with_due_dates_found[OF assms(1)] by simp_all
  have k: "map snd keyed = found"
    and key: "\<forall>kx \<in> set keyed. sort_key_of (snd kx) = Inr (fst kx)"
    using sort_keys_keyed[OF assms(2)] by simp_all
  have mem: "snd kx \<in> set found"
    using k assms(3) by force
  then have "due_card (snd kx) \<in> set (map due_card found)"
    by simp
  then have c: "due_card (snd kx) \<in> set cs \<and> due_dated (due_card (snd kx))"
    using f by simp
  have "first_due_date (content_of (due_card (snd kx))) = Some (fst kx)"
    using first_token_key[of "snd kx" "fst kx"] m mem key assms(3) by blast
  then show ?thesis using c by simp
qed

lemma due_cards_keys:
  assumes "get_due_cards now s n = Inr out"
  shows "\<exists>kept. out = map snd kept \<and> sorted (map fst kept) \<and>
           (\<forall>kx \<in> set kept.
              first_due_date (content_of (due_card (snd kx))) = Some (fst kx) \<and>
              due_card (snd kx) \<in> set (snapshot_cards s) \<and> due_dated (due_card (snd kx)))"
proof -
  from assms obtain cards found keyed where
    st: "dict_get_default (data s) ''card'' (JObj []) = JObj cards"
      "cards_with_due_dates (dict_values cards) = Inr found"
      "sort_keys found = Inr keyed"
      "snapshot_cards s = dict_values cards"
    by (rule due_cards_stages)
  define ordered where "ordered = sort_key fst keyed"
  have eq: "get_due_cards now s n =
     (if n > 0 then
        (case within_horizon now n ordered of Inl err \<Rightarrow> Inl err | Inr kept \<Rightarrow> Inr (map snd kept))
      else Inr (map snd ordered))"
    unfolding ordered_def using st(1-3) by (rule due_cards_from_stages)
  have "\<exists>P. out = map snd (filter P ordered)"
  proof (cases "n > 0")
    case True
    with eq assms obtain kept where w: "within_horizon now n ordered = Inr kept" and o: "out = map snd kept"
      by (auto split: sum.splits)
    from within_horizon_part[OF w] o show ?thesis by auto
  next
    case False
    with eq assms have "out = map snd (filter (\<lambda>kx. True) ordered)" by simp
    then show ?thesis by blast
  qed
  then obtain P where out: "out = map snd (filter P ordered)" by blast
  have srt: "sorted (map fst (filter P ordered))"
    unfolding ordered_def by (rule sorted_filter) simp
  have sub: "set (filter P ordered) \<subseteq> set keyed"
    by (auto simp: ordered_def)
  have "\<forall>kx \<in> set (filter P ordered).
              first_due_date (content_of (due_card (snd kx))) = Some (fst kx) \<and>
              due_card (snd kx) \<in> set (snapshot_cards s) \<and> due_dated (due_card (snd kx))"
    using keyed_entries[OF st(2) st(3)] sub st(4) by auto
  with out srt show ?thesis by blast
qed

lemma due_cards_sorted_keys:
  assumes "get_due_cards now s n = Inr out"
  shows "\<exists>ks. map (\<lambda>x. first_due_date (content_of (due_card x))) out = map Some ks \<and> sorted ks"
proof -
  from due_cards_keys[OF assms] obtain kept where
    k: "out = map snd kept" "sorted (map fst kept)"
      "\<forall>kx \<in> set kept. first_due_date (content_of (due_card (snd kx))) = Some (fst kx)"
    by blast
  have "map (\<lambda>x. first_due_date (content_of (due_card x))) out = map Some (map fst kept)"
    using k(1) k(3) by simp
  with k(2) show ?thesis by blast
qed

lemma due_cards_only_due:
  assumes "get_due_cards now s n = Inr out" and "x \<in> set out"
  shows "due_card x \<in> set (snapshot_cards s) \<and> due_dated (due_card x)"
  using due_cards_keys[OF assms(1)] assms(2) by auto

lemma due_cards_no_horizon:
  "n \<le> 0 \<Longrightarrow> get_due_cards now s n = get_due_cards now s 0"
  by (auto simp: get_due_cards_def Let_def split: json.splits sum.splits)

lemma due_cards_within_limit:
  assumes "get_due_cards now s 0 = Inr every" and "0 < n" and "add_days now n = Inr limit"
  shows "get_due_cards now s n = Inr (filter (\<lambda>x. due_by limit (due_card x)) every)"
proof -
  from assms(1) obtain cards found keyed where
    st: "dict_get_default (data s) ''card'' (JObj []) = JObj cards"
      "cards_with_due_dates (dict_values cards) = Inr found"
      "sort_keys found = Inr keyed"
      "snapshot_cards s = dict_values cards"
    by (rule due_cards_stages)
  define ordered where "ordered = sort_key fst keyed"
  have all: "every = map snd ordered"
    using due_cards_from_stages[OF st(1-3), of now 0] assms(1) by (simp add: ordered_def)
  have n: "get_due_cards now s n = Inr (map snd (filter (\<lambda>kx. fst kx \<le> limit) ordered))"
    using due_cards_from_stages[OF st(1-3), of now n] assms(2)
      within_horizon_limit[OF assms(3), of ordered]
    by (simp add: ordered_def)
  have key: "\<forall>kx \<in> set ordered. first_due_date (content_of (due_card (snd kx))) = Some (fst kx)"
    using keyed_entries[OF st(2) st(3)] by (simp add: ordered_def)
  have "filter (\<lambda>x. due_by limit (due_card x)) (map snd ordered)
        = map snd (filter (\<lambda>kx. fst kx \<le> limit) ordered)"
    unfolding filter_map using key
    by (auto simp: due_by_def intro!: arg_cong[where f = "map snd"] filter_cong)
  with n all show ?thesis by simp
qed

lemma due_cards_all_due:
  assumes "get_due_cards now s 0 = Inr every"
  shows "mset (map due_card every) = mset (filter due_dated (snapshot_cards s))"
proof -
  from assms obtain cards found keyed where
    st: "dict_get_default (data s) ''card'' (JObj []) = JObj cards"
      "cards_with_due_dates (dict_values cards) = Inr found"
      "sort_keys found = Inr keyed"
      "snapshot_cards s = dict_values cards"
    by (rule due_cards_stages)
  have all: "every = map snd (sort_key fst keyed)"
    using due_cards_from_stages[OF st(1-3), of now 0] assms by simp
  have "mset every = mset (map snd keyed)"
    unfolding all by simp
  also have "\<dots> = mset found"
    using sort_keys_keyed[OF st(3)] by simp
  finally have "mset (map due_card every) = mset (map due_card found)"
    by (metis mset_map)
  then show ?thesis
    using cards_with_due_dates_found[OF st(2)] st(4) by simp
qed

lemma cards_with_due_dates_returns:
  "list_all card_ok cs \<Longrightarrow> \<exists>found. cards_with_due_dates cs = Inr found"
  by (induction cs) (auto simp: card_ok_def split: sum.splits)

lemma sort_keys_returns:
  "list_all (\<lambda>x. \<exists>k. sort_key_of x = Inr k) xs \<Longrightarrow> \<exists>ks. sort_keys xs = Inr ks"
  by (induction xs) auto

lemma due_entry_key:
  assumes "card_ok c" and "card_content c = Inr str" and "re_search str"
  shows "\<exists>k. sort_key_of (Due c (re_findall str)) = Inr k"
  using assms
  by (auto simp: card_ok_def sort_key_of_def first_due_date_def split: list.splits sum.splits)

lemma found_have_keys:
  "list_all card_ok cs \<Longrightarrow> cards_with_due_dates cs = Inr found \<Longrightarrow>
     list_all (\<lambda>x. \<exists>k. sort_key_of x = Inr k) found"
proof (induction cs arbitrary: found)
  case Nil
  then show ?case by simp
next
  case (Cons c cs)
  from Cons.prems(2) obtain str rest where c: "card_content c = Inr str"
    and r: "cards_with_due_dates cs = Inr rest"
    and f: "found = (if re_search str then Due c (re_findall str) # rest else rest)"
    by (auto split: sum.splits)
  have ih: "list_all (\<lambda>x. \<exists>k. sort_key_of x = Inr k) rest"
    using Cons.IH[OF _ r] Cons.prems(1) by simp
  show ?case
    using f ih due_entry_key[OF _ c] Cons.prems(1) by auto
qed

lemma get_due_cards_returns:
  assumes "is_dict (dict_get_default (data s) ''card'' (JObj []))"
    and "list_all card_ok (snapshot_cards s)"
    and "n \<le> 0 \<or> (\<exists>limit. add_days now n = Inr limit)"
  shows "\<exists>out. get_due_cards now s n = Inr out"
proof -
  from assms(1) obtain cards where cards: "dict_get_default (data s) ''card'' (JObj []) = JObj cards"
    by (cases "dict_get_default (data s) ''card'' (JObj [])") auto
  have sc: "snapshot_cards s = dict_values cards"
    using cards
    by (auto simp: snapshot_cards_def dict_get_default_def dict_values_def split: option.splits)
  from assms(2) sc obtain found where found: "cards_with_due_dates (dict_values cards) = Inr found"
    using cards_with_due_dates_returns[of "dict_values cards"] by auto
  obtain keyed where keyed: "sort_keys found = Inr keyed"
    using sort_keys_returns[OF found_have_keys[OF _ found]] assms(2) sc by auto
  show ?thesis
  proof (cases "n \<le> 0")
    case True
    then show ?thesis
      using due_cards_from_stages[OF cards found keyed, of now n] by simp
  next
    case False
    with assms(3) obtain limit where "add_days now n = Inr limit" by blast
    then show ?thesis
      using due_cards_from_stages[OF cards found keyed, of now n]
        within_horizon_limit[of now n limit "sort_key fst keyed"]
      by simp
  qed
qed

text \<open>
  C4, as the code has it. Whenever \<open>get_due_cards\<close> returns, its list is sorted
  ascending by the date of the first (leftmost) due-date token of each card's content,
  and every card in it is a card of the snapshot whose content has a due-date token: a
  card without one never appears. It returns when the cards are records with a string
  for a content whose first token is a calendar date, and the horizon, if positive,
  ends on a date that \<^verbatim>\<open>datetime\<close> can hold.
\<close>

theorem get_due_cards_sorted_by_first_token:
  "(get_due_cards now s days_ahead = Inr out \<longrightarrow>
      (\<exists>ks. map (\<lambda>x. first_due_date (content_of (due_card x))) out = map Some ks \<and> sorted ks)
      \<and> (\<forall>x \<in> set out. due_card x \<in> set (snapshot_cards s) \<and> due_dated (due_card x)))
   \<and> (is_dict (dict_get_default (data s) ''card'' (JObj [])) \<longrightarrow>
        list_all card_ok (snapshot_cards s) \<longrightarrow>
        days_ahead \<le> 0 \<or> (\<exists>limit. add_days now days_ahead = Inr limit) \<longrightarrow>
        (\<exists>res. get_due_cards now s days_ahead = Inr res))"
  using due_cards_sorted_keys[of now s days_ahead out]
    due_cards_only_due[of now s days_ahead out]
    get_due_cards_returns[of s days_ahead now]
  by blast

theorem get_due_cards_sorted_by_first_token_witness:
  "get_due_cards new_year booted 0 = Inr demo_due
   \<and> (\<exists>ks. map (\<lambda>x. first_due_date (content_of (due_card x))) demo_due = map Some ks \<and> sorted ks)
   \<and> due_dated plan
   \<and> idea \<in> set (snapshot_cards booted) \<and> idea \<notin> due_card ` set demo_due
   \<and> (\<exists>res. get_due_cards new_year booted 7 = Inr res)"
proof -
  have run: "get_due_cards new_year booted 0 = Inr demo_due"
    by code_simp
  have mem: "Due plan [''[10/01/25]'', ''[01/01/25]''] \<in> set demo_due"
    by (simp add: demo_due_def)
  have idea: "idea \<in> set (snapshot_cards booted) \<and> idea \<notin> due_card ` set demo_due"
    by code_simp
  have mapping: "is_dict (dict_get_default (data booted) ''card'' (JObj []))"
    by code_simp
  have cards: "list_all card_ok (snapshot_cards booted)"
    by code_simp
  have week: "add_days new_year 7 = Inr (739259, 43200000000)"
    by code_simp
  have sorted_due: "(\<exists>ks. map (\<lambda>x. first_due_date (content_of (due_card x))) demo_due = map Some ks \<and> sorted ks)
      \<and> due_dated plan"
    using run mem get_due_cards_sorted_by_first_token[of new_year booted 0 demo_due]
    by force
  have returns: "\<exists>res. get_due_cards new_year booted 7 = Inr res"
    using mapping cards week get_due_cards_sorted_by_first_token[of new_year booted 7]
    by blast
  show ?thesis
    using run idea sorted_due returns by blast
qed

text \<open>
  C4 as it is stated fails: the content of the card Plan holds the tokens 10 January 2025
  and 1 January 2025 in that order. \<open>get_due_cards\<close> places it by the first, after the
  card due on 5 January; by its earliest date it belongs before that card.
\<close>

theorem due_cards_not_sorted_by_earliest_date:
  "get_due_cards new_year booted 0 = Inr demo_due
   \<and> map (\<lambda>x. earliest_due_date (content_of (due_card x))) demo_due =
       [Some (738917, 0), Some (739256, 0), Some (739252, 0)]
   \<and> \<not> sorted [(738917, 0), (739256, 0), (739252 :: int, 0 :: int)]"
  by code_simp

text \<open>A horizon that ends beyond the last date raises as soon as one card is due-dated.\<close>

lemma horizon_overflow:
  assumes "get_due_cards now s 0 = Inr every" and "every \<noteq> []" and "0 < n"
    and "add_days now n = Inl err"
  shows "get_due_cards now s n = Inl err"
proof -
  from assms(1) obtain cards found keyed where
    st: "dict_get_default (data s) ''card'' (JObj []) = JObj cards"
      "cards_with_due_dates (dict_values cards) = Inr found"
      "sort_keys found = Inr keyed"
      "snapshot_cards s = dict_values cards"
    by (rule due_cards_stages)
  have "every = map snd (sort_key fst keyed)"
    using due_cards_from_stages[OF st(1-3), of now 0] assms(1) by simp
  with assms(2) obtain kx rest where "sort_key fst keyed = kx # rest"
    by (cases "sort_key fst keyed") auto
  then have "within_horizon now n (sort_key fst keyed) = Inl err"
    using assms(4) by simp
  then show ?thesis
    using due_cards_from_stages[OF st(1-3), of now n] assms(3) by simp
qed

text \<open>
  C5, as the code has it. Let the call without a horizon return a list. For
  \<open>days_ahead \<le> 0\<close> the call returns that list: all the due-dated cards of the
  snapshot, sorted ascending by the date of their first token. For \<open>days_ahead > 0\<close>,
  when now + \<open>days_ahead\<close> days is a date that \<^verbatim>\<open>datetime\<close> can hold, the call returns
  that list without exactly the cards whose first token's date is after it.
\<close>

theorem get_due_cards_horizon_filter:
  "get_due_cards now s 0 = Inr every \<Longrightarrow>
     (days_ahead \<le> 0 \<longrightarrow> get_due_cards now s days_ahead = Inr every)
     \<and> (0 < days_ahead \<longrightarrow> add_days now days_ahead = Inr limit \<longrightarrow>
          get_due_cards now s days_ahead = Inr (filter (\<lambda>x. due_by limit (due_card x)) every))
     \<and> mset (map due_card every) = mset (filter due_dated (snapshot_cards s))
     \<and> (\<exists>ks. map (\<lambda>x. first_due_date (content_of (due_card x))) every = map Some ks \<and> sorted ks)"
  using due_cards_no_horizon[of days_ahead now s]
    due_cards_within_limit[of now s every days_ahead limit]
    due_cards_all_due[of now s every]
    due_cards_sorted_keys[of now s 0 every]
  by simp

theorem get_due_cards_horizon_filter_witness:
  "get_due_cards new_year booted 0 = Inr demo_due
   \<and> get_due_cards new_year booted (- 3) = Inr demo_due
   \<and> add_days new_year 5 = Inr (739257, 43200000000)
   \<and> get_due_cards new_year booted 5 = Inr [Due fix_bug [''[01/02/24]''], Due licence [''[05/01/25]'']]
   \<and> add_days new_year 10 = Inr (739262, 43200000000)
   \<and> get_due_cards new_year booted 10 = Inr demo_due
   \<and> add_days new_year 2 = Inr (739254, 43200000000)
   \<and> get_due_cards new_year booted 2 = Inr [Due fix_bug [''[01/02/24]'']]"
proof -
  have run: "get_due_cards new_year booted 0 = Inr demo_due"
    by code_simp
  have l5: "add_days new_year 5 = Inr (739257, 43200000000)"
    by code_simp
  have l10: "add_days new_year 10 = Inr (739262, 43200000000)"
    by code_simp
  have f5: "filter (\<lambda>x. due_by (739257, 43200000000) (due_card x)) demo_due =
              [Due fix_bug [''[01/02/24]''], Due licence [''[05/01/25]'']]"
    by code_simp
  have f10: "filter (\<lambda>x. due_by (739262, 43200000000) (due_card x)) demo_due = demo_due"
    by code_simp
  have l2: "add_days new_year 2 = Inr (739254, 43200000000)"
    by code_simp
  have f2: "filter (\<lambda>x. due_by (739254, 43200000000) (due_card x)) demo_due =
              [Due fix_bug [''[01/02/24]'']]"
    by code_simp
  show ?thesis
    using run l5 l10 l2 f5 f10 f2
      get_due_cards_horizon_filter[OF run, of "- 3"]
      get_due_cards_horizon_filter[OF run, of 5 "(739257, 43200000000)"]
      get_due_cards_horizon_filter[OF run, of 10 "(739262, 43200000000)"]
      get_due_cards_horizon_filter[OF run, of 2 "(739254, 43200000000)"]
    by simp
qed

text \<open>
  C5 as it is stated fails: at noon of 1 January 2025 with a horizon of 5 days, the
  earliest due date of the card Plan, 1 January 2025, is not after the limit, yet the
  card is left out, since its first token is 10 January.
\<close>

theorem horizon_ignores_earliest_date:
  "plan \<in> set (snapshot_cards booted)
   \<and> earliest_due_date (content_of plan) = Some (739252, 0)
   \<and> add_days new_year 5 = Inr (739257, 43200000000)
   \<and> (739252, 0) \<le> ((739257, 43200000000) :: datetime)
   \<and> get_due_cards new_year booted 5 = Inr [Due fix_bug [''[01/02/24]''], Due licence [''[05/01/25]'']]
   \<and> plan \<notin> due_card ` set [Due fix_bug [''[01/02/24]''], Due licence [''[05/01/25]'']]"
  by code_simp

end
